theory Spec2Isabelle
  imports Main "HOL-Library.Word"
begin

section \<open>Package geoip: resolving an IP address to a country code\<close>

text \<open>
  The package keeps three package-level variables (\<open>dbOnce\<close>, \<open>dbReader\<close>, \<open>dbInitErr\<close>)
  and talks to three things outside itself: the HTTP service, the file system and the
  maxminddb library. The variables are the fields of the record \<open>state\<close>, threaded
  through every function; what the outside answers at the moment of a call is the record
  \<open>world\<close>, an argument of every function, so that two calls may see different answers.
  The state also carries a log of the outside calls made so far, which the program does
  not have: it is there to state which calls a function makes.

  Go strings are byte strings, and so are the strings here. \<open>strings.TrimSpace\<close> and
  \<open>strings.ToLower\<close> are modelled on ASCII text, where Go treats them bytewise; on a
  string with a byte above 127 Go decodes UTF-8 and consults the Unicode tables, which
  is outside this development.
\<close>

subsection \<open>Values\<close>

text \<open>\<open>net.IP\<close> is a byte slice; \<open>None\<close> is the nil slice.\<close>

type_synonym IP = "8 word list option"

text \<open>
  The four errors the package creates with \<open>errors.New\<close>, an error value handed over by
  net/http, io, os or maxminddb (with its message), and the run-time panic of calling
  a method on a nil reader.
\<close>

datatype error =
    NilIP
  | StatusNotOK
  | InvalidCountryCode
  | IPNotFound
  | External string
  | NilReaderPanic

record IPInfo =
  CountryCode :: string
  Country :: string
  CountryName :: string
  ContinentCode :: string
  Continent :: string
  ContinentName :: string

text \<open>\<open>var record IPInfo\<close>: every field is the empty string.\<close>

definition zero_IPInfo :: IPInfo where
  "zero_IPInfo = \<lparr>CountryCode = [], Country = [], CountryName = [],
     ContinentCode = [], Continent = [], ContinentName = []\<rparr>"

text \<open>
  A \<open>*maxminddb.Reader\<close> is known by what its method \<open>Lookup(ip, &record)\<close> does:
  it returns an error (\<open>Inl\<close>), or it returns nil having found no record for the address
  and left \<open>record\<close> untouched (\<open>Inr None\<close>), or it returns nil having decoded the
  address's record into \<open>record\<close> (\<open>Inr (Some r)\<close>, \<open>r\<close> the struct afterwards).
\<close>

datatype Reader = Reader (Reader_Lookup: "IP \<Rightarrow> string + IPInfo option")

datatype FileInfo = FileInfo (IsDir: bool)

text \<open>An HTTP response: its status code and what \<open>io.ReadAll(resp.Body)\<close> gives.\<close>

record Response =
  StatusCode :: int
  Body :: "string + string"

record world =
  IP_String :: "8 word list \<Rightarrow> string"
  http_Get :: "string \<Rightarrow> string + Response"
  os_Stat :: "string + FileInfo"
  mmdb_Open :: "string + Reader"
  mmdb_FromBytes :: "string + Reader"

datatype event = EvHttpGet string | EvStat | EvOpen | EvFromBytes

record state =
  dbOnce :: bool
  dbReader :: "Reader option"
  dbInitErr :: "error option"
  trace :: "event list"

definition init_state :: state where
  "init_state = \<lparr>dbOnce = False, dbReader = None, dbInitErr = None, trace = []\<rparr>"

definition log :: "event \<Rightarrow> state \<Rightarrow> state" where
  "log ev s = s\<lparr>trace := trace s @ [ev]\<rparr>"

text \<open>The events that are HTTP requests.\<close>

fun is_http :: "event \<Rightarrow> bool" where
  "is_http (EvHttpGet _) = True"
| "is_http _ = False"

subsection \<open>Strings\<close>

text \<open>The table \<open>asciiSpace\<close> of package strings: tab, LF, VT, FF, CR and space.\<close>

definition asciiSpace :: "char \<Rightarrow> bool" where
  "asciiSpace c = (let n = (of_char c :: nat) in (9 \<le> n \<and> n \<le> 13) \<or> n = 32)"

definition TrimSpace :: "string \<Rightarrow> string" where
  "TrimSpace s = rev (dropWhile asciiSpace (rev (dropWhile asciiSpace s)))"

definition lower_byte :: "char \<Rightarrow> char" where
  "lower_byte c = (let n = (of_char c :: nat) in
     if 65 \<le> n \<and> n \<le> 90 then char_of (n + 32) else c)"

definition ToLower :: "string \<Rightarrow> string" where
  "ToLower s = map lower_byte s"


subsection \<open>One-time choice of the database\<close>

text \<open>The second half of \<open>initDB\<close>: parse the embedded database.\<close>

definition initDB_embedded :: "world \<Rightarrow> state \<Rightarrow> state" where
  "initDB_embedded w s =
     (let s1 = log EvFromBytes s in
      case mmdb_FromBytes w of
        Inl err \<Rightarrow> s1\<lparr>dbInitErr := Some (External err)\<rparr>
      | Inr reader \<Rightarrow> s1\<lparr>dbReader := Some reader\<rparr>)"

definition initDB :: "world \<Rightarrow> state \<Rightarrow> state" where
  "initDB w s =
     (let s1 = log EvStat s in
      case os_Stat w of
        Inl _ \<Rightarrow> initDB_embedded w s1
      | Inr info \<Rightarrow>
          if \<not> IsDir info then
            (let s2 = log EvOpen s1 in
             case mmdb_Open w of
               Inr reader \<Rightarrow> s2\<lparr>dbReader := Some reader\<rparr>
             | Inl _ \<Rightarrow> initDB_embedded w s2)
          else initDB_embedded w s1)"

text \<open>\<open>dbOnce.Do(initDB)\<close> runs \<open>initDB\<close> unless it has run, and marks it as run.\<close>

definition getDB :: "world \<Rightarrow> state \<Rightarrow> (Reader option \<times> error option) \<times> state" where
  "getDB w s =
     (let s1 = (if dbOnce s then s else (initDB w s)\<lparr>dbOnce := True\<rparr>)
      in ((dbReader s1, dbInitErr s1), s1))"

subsection \<open>The remote service\<close>

definition fetchIPInfoCountry :: "world \<Rightarrow> state \<Rightarrow> string \<Rightarrow> (error + string) \<times> state" where
  "fetchIPInfoCountry w s url =
     (let s1 = log (EvHttpGet url) s in
      case http_Get w url of
        Inl err \<Rightarrow> (Inl (External err), s1)
      | Inr resp \<Rightarrow>
          if StatusCode resp \<noteq> 200 then (Inl StatusNotOK, s1)
          else (case Body resp of
                  Inl err \<Rightarrow> (Inl (External err), s1)
                | Inr body \<Rightarrow>
                    (let code = TrimSpace body in
                     if length code \<noteq> 2 then (Inl InvalidCountryCode, s1)
                     else (Inr (ToLower code), s1))))"

definition country_url :: "world \<Rightarrow> 8 word list \<Rightarrow> string" where
  "country_url w b = ''https://ipinfo.io/'' @ IP_String w b @ ''/country''"

definition lookupFromIPInfo :: "world \<Rightarrow> state \<Rightarrow> IP \<Rightarrow> (error + string) \<times> state" where
  "lookupFromIPInfo w s ip =
     (case ip of
        None \<Rightarrow> (Inl NilIP, s)
      | Some b \<Rightarrow> fetchIPInfoCountry w s (country_url w b))"

subsection \<open>Lookup\<close>

text \<open>The priority chain at the end of \<open>Lookup\<close>, on the decoded record.\<close>

definition Lookup_record :: "IPInfo \<Rightarrow> error + string" where
  "Lookup_record record =
     (if CountryCode record \<noteq> [] then Inr (ToLower (CountryCode record))
      else if Country record \<noteq> [] \<and> length (Country record) = 2
        then Inr (ToLower (Country record))
      else if ContinentCode record \<noteq> [] then Inr (ToLower (ContinentCode record))
      else if Continent record \<noteq> [] \<and> length (Continent record) = 2
        then Inr (ToLower (Continent record))
      else Inl IPNotFound)"

text \<open>
  The lookup in an open database: \<open>var record IPInfo\<close>, \<open>db.Lookup(ip, &record)\<close>,
  then the priority chain.
\<close>

definition Lookup_db :: "Reader \<Rightarrow> IP \<Rightarrow> error + string" where
  "Lookup_db db ip =
     (case Reader_Lookup db ip of
        Inl err \<Rightarrow> Inl (External err)
      | Inr found \<Rightarrow>
          Lookup_record (case found of None \<Rightarrow> zero_IPInfo | Some r \<Rightarrow> r))"

text \<open>
  The rest of \<open>Lookup\<close> once \<open>getDB\<close> has returned \<open>db\<close> and \<open>err\<close>: the error if
  there is one, else the lookup in \<open>db\<close>, which panics when \<open>db\<close> is nil.
\<close>

definition Lookup_with :: "Reader option \<Rightarrow> error option \<Rightarrow> IP \<Rightarrow> error + string" where
  "Lookup_with db err ip =
     (case err of
        Some e \<Rightarrow> Inl e
      | None \<Rightarrow> (case db of None \<Rightarrow> Inl NilReaderPanic | Some rd \<Rightarrow> Lookup_db rd ip))"

text \<open>Step 2 of \<open>Lookup\<close>: everything after the remote attempt.\<close>

definition Lookup_local :: "world \<Rightarrow> state \<Rightarrow> IP \<Rightarrow> (error + string) \<times> state" where
  "Lookup_local w s ip =
     (case getDB w s of ((db, err), s1) \<Rightarrow> (Lookup_with db err ip, s1))"

definition Lookup :: "world \<Rightarrow> state \<Rightarrow> IP \<Rightarrow> (error + string) \<times> state" where
  "Lookup w s ip =
     (case lookupFromIPInfo w s ip of
        (Inr code, s1) \<Rightarrow> if code \<noteq> [] then (Inr code, s1) else Lookup_local w s1 ip
      | (Inl _, s1) \<Rightarrow> Lookup_local w s1 ip)"

text \<open>A sequence of calls, each in the world of its moment.\<close>

fun Lookups :: "(world \<times> IP) list \<Rightarrow> state \<Rightarrow> (error + string) list \<times> state" where
  "Lookups [] s = ([], s)"
| "Lookups ((w, ip) # cs) s =
     (case Lookup w s ip of
        (r, s1) \<Rightarrow> (case Lookups cs s1 of (rs, s2) \<Rightarrow> (r # rs, s2)))"

subsection \<open>Vocabulary of the properties\<close>

text \<open>
  The remote tier succeeds: \<open>lookupFromIPInfo\<close> returns a non-empty code and no error.
  Its result depends on the world and the address only.
\<close>

definition remote_succeeds :: "world \<Rightarrow> IP \<Rightarrow> bool" where
  "remote_succeeds w ip =
     (case fst (lookupFromIPInfo w init_state ip) of
        Inr code \<Rightarrow> code \<noteq> []
      | Inl _ \<Rightarrow> False)"

text \<open>The external file is absent: \<open>os.Stat\<close> returns an error.\<close>

definition external_absent :: "world \<Rightarrow> bool" where
  "external_absent w = (case os_Stat w of Inl _ \<Rightarrow> True | Inr _ \<Rightarrow> False)"

text \<open>The external file is there, is no directory, and does not open as a database.\<close>

definition external_corrupt :: "world \<Rightarrow> bool" where
  "external_corrupt w =
     (case os_Stat w of
        Inl _ \<Rightarrow> False
      | Inr info \<Rightarrow>
          \<not> IsDir info \<and> (case mmdb_Open w of Inl _ \<Rightarrow> True | Inr _ \<Rightarrow> False))"

text \<open>The external path is a directory.\<close>

definition external_is_dir :: "world \<Rightarrow> bool" where
  "external_is_dir w = (case os_Stat w of Inl _ \<Rightarrow> False | Inr info \<Rightarrow> IsDir info)"

text \<open>The events of a log other than HTTP requests.\<close>

definition local_events :: "state \<Rightarrow> event list" where
  "local_events s = filter (\<lambda>e. \<not> is_http e) (trace s)"

text \<open>
  What holds of the package variables after any sequence of calls from the initial state.
\<close>

definition state_inv :: "state \<Rightarrow> bool" where
  "state_inv s =
     ((if dbOnce s then (dbReader s = None) \<noteq> (dbInitErr s = None)
       else dbReader s = None \<and> dbInitErr s = None \<and> local_events s = [])
      \<and> (case dbInitErr s of None \<Rightarrow> True | Some e \<Rightarrow> (case e of External _ \<Rightarrow> True | _ \<Rightarrow> False)))"

subsection \<open>Sample data\<close>

text \<open>A record in the shape of the embedded database: the codes sit in country and continent.\<close>

definition rec_AU :: IPInfo where
  "rec_AU = \<lparr>CountryCode = [], Country = ''AU'', CountryName = ''Australia'',
     ContinentCode = [], Continent = ''OC'', ContinentName = ''Oceania''\<rparr>"


definition ip_a :: IP where "ip_a = Some [1, 1, 1, 1]"
definition ip_b :: IP where "ip_b = Some [192, 0, 2, 7]"
definition ip_c :: IP where "ip_c = Some [10, 0, 0, 1]"

text \<open>
  A database that knows \<open>ip_a\<close>, holds a record without any field for \<open>ip_b\<close> and
  has nothing for any other address.
\<close>

definition rd_embedded :: Reader where
  "rd_embedded = Reader (\<lambda>ip.
     if ip = None then Inl ''IP passed to Lookup cannot be nil''
     else if ip = ip_a then Inr (Some rec_AU)
     else if ip = ip_b then Inr (Some zero_IPInfo)
     else Inr None)"


text \<open>No network, no external file, the embedded database parses.\<close>

definition w_offline :: world where
  "w_offline = \<lparr>IP_String = (\<lambda>b.
       if b = [1, 1, 1, 1] then ''1.1.1.1''
       else if b = [192, 0, 2, 7] then ''192.0.2.7''
       else ''10.0.0.1''),
     http_Get = (\<lambda>_. Inl ''context deadline exceeded''),
     os_Stat = Inl ''no such file or directory'',
     mmdb_Open = Inl ''no such file or directory'',
     mmdb_FromBytes = Inr rd_embedded\<rparr>"

text \<open>The service answers 200 with the body \<open>US\<close> and a line feed.\<close>

definition w_online :: world where
  "w_online = w_offline\<lparr>http_Get :=
     (\<lambda>_. Inr \<lparr>StatusCode = 200, Body = Inr [CHR ''U'', CHR ''S'', CHR 0x0A]\<rparr>)\<rparr>"

text \<open>No network, no external file, and the embedded database does not parse.\<close>

definition w_broken :: world where
  "w_broken = w_offline\<lparr>mmdb_FromBytes := Inl ''invalid database''\<rparr>"

text \<open>The external path is a regular file that is no database.\<close>

definition w_corrupt :: world where
  "w_corrupt = w_offline\<lparr>os_Stat := Inr (FileInfo False),
     mmdb_Open := Inl ''invalid database''\<rparr>"

text \<open>The external path is a directory.\<close>

definition w_dir :: world where
  "w_dir = w_offline\<lparr>os_Stat := Inr (FileInfo True),
     mmdb_Open := Inl ''is a directory''\<rparr>"

text \<open>The state after one call that the remote service answered.\<close>

definition s_answered :: state where
  "s_answered = snd (Lookups [(w_online, ip_a)] init_state)"


section \<open>Basic facts\<close>

subsection \<open>Lowercasing\<close>





subsection \<open>The log and the variables\<close>

lemma log_fields:
  "dbOnce (log ev s) = dbOnce s" "dbReader (log ev s) = dbReader s"
  "dbInitErr (log ev s) = dbInitErr s" "trace (log ev s) = trace s @ [ev]"
  by (simp_all add: log_def)

lemma local_events_log:
  "local_events (log ev s) = local_events s @ (if is_http ev then [] else [ev])"
  by (simp add: local_events_def log_def)

subsection \<open>The remote tier\<close>

lemma fst_fetch: "fst (fetchIPInfoCountry w s url) = fst (fetchIPInfoCountry w s' url)"
  by (simp add: fetchIPInfoCountry_def Let_def split: sum.splits)

lemma snd_fetch: "snd (fetchIPInfoCountry w s url) = log (EvHttpGet url) s"
  by (simp add: fetchIPInfoCountry_def Let_def split: sum.splits)

lemma fst_remote: "fst (lookupFromIPInfo w s ip) = fst (lookupFromIPInfo w s' ip)"
  by (cases ip) (simp_all add: lookupFromIPInfo_def fst_fetch[of w s _ s'])

lemma snd_remote:
  "snd (lookupFromIPInfo w s ip) =
     (case ip of None \<Rightarrow> s | Some b \<Rightarrow> log (EvHttpGet (country_url w b)) s)"
  by (cases ip) (simp_all add: lookupFromIPInfo_def snd_fetch)





lemma remote_fields:
  "dbOnce (snd (lookupFromIPInfo w s ip)) = dbOnce s"
  "dbReader (snd (lookupFromIPInfo w s ip)) = dbReader s"
  "dbInitErr (snd (lookupFromIPInfo w s ip)) = dbInitErr s"
  "local_events (snd (lookupFromIPInfo w s ip)) = local_events s"
  by (simp_all add: snd_remote log_fields local_events_log split: option.splits)

lemma Lookup_remote_fails:
  "\<not> remote_succeeds w ip \<Longrightarrow>
   Lookup w s ip = Lookup_local w (snd (lookupFromIPInfo w s ip)) ip"
  using fst_remote[of w s ip init_state]
  by (cases "lookupFromIPInfo w s ip")
     (auto simp: Lookup_def remote_succeeds_def split: sum.splits)

lemma Lookup_remote_succeeds:
  "remote_succeeds w ip \<Longrightarrow> Lookup w s ip = lookupFromIPInfo w s ip"
  using fst_remote[of w s ip init_state]
  by (cases "lookupFromIPInfo w s ip")
     (auto simp: Lookup_def remote_succeeds_def split: sum.splits)

subsection \<open>Initialisation\<close>

lemma initDB_embedded_fields:
  "dbOnce (initDB_embedded w s) = dbOnce s"
  "trace (initDB_embedded w s) = trace s @ [EvFromBytes]"
  "local_events (initDB_embedded w s) = local_events s @ [EvFromBytes]"
  by (simp_all add: initDB_embedded_def Let_def log_def local_events_def split: sum.splits)

lemma initDB_embedded_result:
  "dbReader s = None \<Longrightarrow> dbInitErr s = None \<Longrightarrow>
   (dbReader (initDB_embedded w s), dbInitErr (initDB_embedded w s)) =
     (case mmdb_FromBytes w of
        Inl err \<Rightarrow> (None, Some (External err))
      | Inr rd \<Rightarrow> (Some rd, None))"
  by (simp add: initDB_embedded_def Let_def log_def split: sum.splits)

lemma initDB_dbOnce: "dbOnce (initDB w s) = dbOnce s"
  by (simp add: initDB_def Let_def log_fields initDB_embedded_fields split: sum.splits)

lemma initDB_local_events:
  "local_events (initDB w s) = local_events s @ trace (initDB w init_state)"
  by (simp add: initDB_def initDB_embedded_def Let_def log_def local_events_def
        init_state_def split: sum.splits)

lemma initDB_fallback:
  "external_absent w \<or> external_corrupt w \<or> external_is_dir w \<Longrightarrow>
   dbReader s = None \<Longrightarrow> dbInitErr s = None \<Longrightarrow>
   (dbReader (initDB w s), dbInitErr (initDB w s)) =
     (case mmdb_FromBytes w of
        Inl err \<Rightarrow> (None, Some (External err))
      | Inr rd \<Rightarrow> (Some rd, None))"
  by (auto simp: initDB_def initDB_embedded_def Let_def log_def
        external_absent_def external_corrupt_def external_is_dir_def split: sum.splits)

lemma initDB_inv:
  "dbReader s = None \<Longrightarrow> dbInitErr s = None \<Longrightarrow>
   (dbReader (initDB w s) = None) \<noteq> (dbInitErr (initDB w s) = None) \<and>
   (case dbInitErr (initDB w s) of None \<Rightarrow> True
    | Some e \<Rightarrow> (case e of External _ \<Rightarrow> True | _ \<Rightarrow> False))"
  by (auto simp: initDB_def initDB_embedded_def Let_def log_def split: sum.splits)

lemma getDB_done: "dbOnce s \<Longrightarrow> getDB w s = ((dbReader s, dbInitErr s), s)"
  by (simp add: getDB_def)

lemma snd_Lookup_local: "snd (Lookup_local w s ip) = snd (getDB w s)"
  by (simp add: Lookup_local_def split: prod.splits option.splits)

lemma Lookup_local_done:
  "dbOnce s \<Longrightarrow> snd (Lookup_local w s ip) = s"
  by (simp add: snd_Lookup_local getDB_done)

lemma state_inv_getDB: "state_inv s \<Longrightarrow> state_inv (snd (getDB w s))"
  using initDB_inv[of s w]
  by (auto simp: state_inv_def getDB_def Let_def)

lemma state_inv_remote: "state_inv s \<Longrightarrow> state_inv (snd (lookupFromIPInfo w s ip))"
  by (simp add: state_inv_def remote_fields)

lemma state_inv_Lookup: "state_inv s \<Longrightarrow> state_inv (snd (Lookup w s ip))"
  by (cases "remote_succeeds w ip")
     (simp_all add: Lookup_remote_succeeds Lookup_remote_fails state_inv_remote
        snd_Lookup_local state_inv_getDB)

lemma state_inv_Lookups: "state_inv s \<Longrightarrow> state_inv (snd (Lookups cs s))"
proof (induction cs arbitrary: s)
  case Nil
  then show ?case by simp
next
  case (Cons c cs)
  obtain w ip where c: "c = (w, ip)" by (cases c)
  have "snd (Lookups (c # cs) s) = snd (Lookups cs (snd (Lookup w s ip)))"
    by (simp add: c split: prod.splits)
  with Cons.IH[OF state_inv_Lookup[OF Cons.prems, of w ip]] show ?case by simp
qed

lemma state_inv_init: "state_inv init_state"
  by (simp add: state_inv_def init_state_def local_events_def)

lemma state_inv_run: "s = snd (Lookups pre init_state) \<Longrightarrow> state_inv s"
  by (simp add: state_inv_Lookups state_inv_init)

lemma getDB_fst_log: "fst (getDB w (log ev s)) = fst (getDB w s)"
  by (simp add: getDB_def initDB_def initDB_embedded_def Let_def log_def split: sum.splits)

lemma getDB_fst_remote: "fst (getDB w (snd (lookupFromIPInfo w s ip))) = fst (getDB w s)"
  by (simp add: snd_remote getDB_fst_log split: option.splits)

lemma fst_Lookup_local_with:
  "fst (Lookup_local w s ip) = Lookup_with (fst (fst (getDB w s))) (snd (fst (getDB w s))) ip"
  by (cases "getDB w s") (auto simp: Lookup_local_def)

lemma fst_Lookup_local:
  "fst (Lookup_local w s ip) =
     (case fst (getDB w s) of
        (db, err) \<Rightarrow>
          (case err of
             Some e \<Rightarrow> Inl e
           | None \<Rightarrow> (case db of None \<Rightarrow> Inl NilReaderPanic | Some rd \<Rightarrow> Lookup_db rd ip)))"
  by (cases "getDB w s") (auto simp: Lookup_local_def Lookup_with_def split: option.splits)

lemma getDB_fst_snd: "fst (getDB w s) = (dbReader (snd (getDB w s)), dbInitErr (snd (getDB w s)))"
  by (simp add: getDB_def Let_def)

lemma Lookup_record_zero: "Lookup_record zero_IPInfo = Inl IPNotFound"
  by (simp add: Lookup_record_def zero_IPInfo_def)


subsection \<open>After the database has been chosen\<close>

lemma local_events_dbOnce: "local_events (s\<lparr>dbOnce := b\<rparr>) = local_events s"
  by (simp add: local_events_def)

lemma initDB_trace_fallback:
  "external_absent w \<or> external_corrupt w \<or> external_is_dir w \<Longrightarrow>
   trace (initDB w s) =
     trace s @ (if external_corrupt w then [EvStat, EvOpen, EvFromBytes] else [EvStat, EvFromBytes])"
  by (auto simp: initDB_def initDB_embedded_def Let_def log_def
        external_absent_def external_corrupt_def external_is_dir_def split: sum.splits)

lemma first_getDB:
  assumes "state_inv s" and "\<not> dbOnce s"
    and "external_absent w \<or> external_corrupt w \<or> external_is_dir w"
  shows "dbOnce (snd (getDB w s))"
    and "dbReader (snd (getDB w s)) = (case mmdb_FromBytes w of Inl _ \<Rightarrow> None | Inr rd \<Rightarrow> Some rd)"
    and "dbInitErr (snd (getDB w s)) =
           (case mmdb_FromBytes w of Inl err \<Rightarrow> Some (External err) | Inr _ \<Rightarrow> None)"
    and "local_events (snd (getDB w s)) =
           (if external_corrupt w then [EvStat, EvOpen, EvFromBytes] else [EvStat, EvFromBytes])"
proof -
  from assms(1,2) have fresh: "dbReader s = None" "dbInitErr s = None" "local_events s = []"
    by (simp_all add: state_inv_def)
  from assms(2) have s2: "snd (getDB w s) = (initDB w s)\<lparr>dbOnce := True\<rparr>"
    by (simp add: getDB_def)
  show "dbOnce (snd (getDB w s))" by (simp add: s2)
  from initDB_fallback[OF assms(3) fresh(1,2)]
  show "dbReader (snd (getDB w s)) = (case mmdb_FromBytes w of Inl _ \<Rightarrow> None | Inr rd \<Rightarrow> Some rd)"
    and "dbInitErr (snd (getDB w s)) =
           (case mmdb_FromBytes w of Inl err \<Rightarrow> Some (External err) | Inr _ \<Rightarrow> None)"
    by (auto simp: s2 split: sum.splits)
  have "local_events (snd (getDB w s)) = local_events s @ trace (initDB w init_state)"
    by (simp add: s2 local_events_dbOnce initDB_local_events)
  also have "\<dots> = (if external_corrupt w then [EvStat, EvOpen, EvFromBytes] else [EvStat, EvFromBytes])"
    using initDB_trace_fallback[OF assms(3), of init_state] fresh(3)
    by (simp add: init_state_def)
  finally show "local_events (snd (getDB w s)) =
           (if external_corrupt w then [EvStat, EvOpen, EvFromBytes] else [EvStat, EvFromBytes])" .
qed

lemma Lookup_done:
  assumes "dbOnce s"
  shows "dbOnce (snd (Lookup w s ip))"
    and "dbReader (snd (Lookup w s ip)) = dbReader s"
    and "dbInitErr (snd (Lookup w s ip)) = dbInitErr s"
    and "local_events (snd (Lookup w s ip)) = local_events s"
proof -
  have "snd (Lookup w s ip) = snd (lookupFromIPInfo w s ip)"
  proof (cases "remote_succeeds w ip")
    case True
    then show ?thesis by (simp add: Lookup_remote_succeeds)
  next
    case False
    then show ?thesis
      using assms by (simp add: Lookup_remote_fails Lookup_local_done remote_fields)
  qed
  then show "dbOnce (snd (Lookup w s ip))"
    and "dbReader (snd (Lookup w s ip)) = dbReader s"
    and "dbInitErr (snd (Lookup w s ip)) = dbInitErr s"
    and "local_events (snd (Lookup w s ip)) = local_events s"
    using assms by (simp_all add: remote_fields)
qed

lemma Lookup_done_result:
  assumes "dbOnce s" and "\<not> remote_succeeds w ip"
  shows "fst (Lookup w s ip) = Lookup_with (dbReader s) (dbInitErr s) ip"
proof -
  let ?s1 = "snd (lookupFromIPInfo w s ip)"
  have "dbOnce ?s1" using assms(1) by (simp add: remote_fields)
  then have "fst (getDB w ?s1) = (dbReader s, dbInitErr s)"
    by (simp add: getDB_done remote_fields)
  then show ?thesis
    using assms(2) by (simp add: Lookup_remote_fails fst_Lookup_local_with)
qed

lemma Lookups_done:
  assumes "dbOnce s" and "Lookups cs s = (rs, s')"
  shows "dbOnce s' \<and> dbReader s' = dbReader s \<and> dbInitErr s' = dbInitErr s
     \<and> local_events s' = local_events s \<and> length rs = length cs
     \<and> (\<forall>i < length cs. \<not> remote_succeeds (fst (cs ! i)) (snd (cs ! i)) \<longrightarrow>
           rs ! i = Lookup_with (dbReader s) (dbInitErr s) (snd (cs ! i)))"
  using assms
proof (induction cs arbitrary: s rs s')
  case Nil
  then show ?case by simp
next
  case (Cons c cs)
  obtain w ip where c: "c = (w, ip)" by (cases c)
  obtain r s1 where l: "Lookup w s ip = (r, s1)" by (cases "Lookup w s ip")
  obtain rs1 s2 where ls: "Lookups cs s1 = (rs1, s2)" by (cases "Lookups cs s1")
  from Cons.prems(2) c l ls have eq: "rs = r # rs1" "s' = s2" by simp_all
  from l have s1: "s1 = snd (Lookup w s ip)" and r: "r = fst (Lookup w s ip)" by simp_all
  from Lookup_done[OF Cons.prems(1), of w ip] s1
  have keep: "dbOnce s1" "dbReader s1 = dbReader s" "dbInitErr s1 = dbInitErr s"
    "local_events s1 = local_events s" by simp_all
  from Cons.IH[OF keep(1) ls] keep eq
  have ih: "dbOnce s'" "dbReader s' = dbReader s" "dbInitErr s' = dbInitErr s"
    "local_events s' = local_events s" "length rs1 = length cs"
    "\<forall>i < length cs. \<not> remote_succeeds (fst (cs ! i)) (snd (cs ! i)) \<longrightarrow>
           rs1 ! i = Lookup_with (dbReader s) (dbInitErr s) (snd (cs ! i))"
    by simp_all
  have "\<forall>i < length (c # cs).
          \<not> remote_succeeds (fst ((c # cs) ! i)) (snd ((c # cs) ! i)) \<longrightarrow>
          rs ! i = Lookup_with (dbReader s) (dbInitErr s) (snd ((c # cs) ! i))"
  proof (intro allI impI)
    fix i assume i: "i < length (c # cs)"
      and f: "\<not> remote_succeeds (fst ((c # cs) ! i)) (snd ((c # cs) ! i))"
    show "rs ! i = Lookup_with (dbReader s) (dbInitErr s) (snd ((c # cs) ! i))"
    proof (cases i)
      case 0
      with f c have "\<not> remote_succeeds w ip" by simp
      from Lookup_done_result[OF Cons.prems(1) this] 0 c r eq show ?thesis by simp
    next
      case (Suc j)
      with i f ih(6) eq show ?thesis by simp
    qed
  qed
  with ih eq show ?case by simp
qed

lemma first_Lookup:
  assumes "state_inv s" and "\<not> dbOnce s" and "\<not> remote_succeeds w ip"
    and "external_absent w \<or> external_corrupt w \<or> external_is_dir w"
  shows "dbOnce (snd (Lookup w s ip))"
    and "dbReader (snd (Lookup w s ip)) =
           (case mmdb_FromBytes w of Inl _ \<Rightarrow> None | Inr rd \<Rightarrow> Some rd)"
    and "dbInitErr (snd (Lookup w s ip)) =
           (case mmdb_FromBytes w of Inl err \<Rightarrow> Some (External err) | Inr _ \<Rightarrow> None)"
    and "local_events (snd (Lookup w s ip)) =
           (if external_corrupt w then [EvStat, EvOpen, EvFromBytes] else [EvStat, EvFromBytes])"
    and "fst (Lookup w s ip) =
           Lookup_with (dbReader (snd (Lookup w s ip))) (dbInitErr (snd (Lookup w s ip))) ip"
proof -
  let ?s1 = "snd (lookupFromIPInfo w s ip)"
  have inv: "state_inv ?s1" using assms(1) by (rule state_inv_remote)
  have fresh: "\<not> dbOnce ?s1" using assms(2) by (simp add: remote_fields)
  have snd_eq: "snd (Lookup w s ip) = snd (getDB w ?s1)"
    using assms(3) by (simp add: Lookup_remote_fails snd_Lookup_local)
  from first_getDB[OF inv fresh assms(4)] snd_eq
  show "dbOnce (snd (Lookup w s ip))"
    and "dbReader (snd (Lookup w s ip)) =
           (case mmdb_FromBytes w of Inl _ \<Rightarrow> None | Inr rd \<Rightarrow> Some rd)"
    and "dbInitErr (snd (Lookup w s ip)) =
           (case mmdb_FromBytes w of Inl err \<Rightarrow> Some (External err) | Inr _ \<Rightarrow> None)"
    and "local_events (snd (Lookup w s ip)) =
           (if external_corrupt w then [EvStat, EvOpen, EvFromBytes] else [EvStat, EvFromBytes])"
    by simp_all
  show "fst (Lookup w s ip) =
           Lookup_with (dbReader (snd (Lookup w s ip))) (dbInitErr (snd (Lookup w s ip))) ip"
    using assms(3) getDB_fst_snd[of w ?s1]
    by (simp add: Lookup_remote_fails fst_Lookup_local_with snd_Lookup_local)
qed

lemma Lookups_first:
  assumes "state_inv s0" and "\<not> dbOnce s0"
    and "\<not> remote_succeeds w0 ip0"
    and "external_absent w0 \<or> external_corrupt w0 \<or> external_is_dir w0"
    and "Lookups ((w0, ip0) # cs) s0 = (rs, s')"
  shows "dbReader s' = (case mmdb_FromBytes w0 of Inl _ \<Rightarrow> None | Inr rd \<Rightarrow> Some rd)"
    and "dbInitErr s' =
           (case mmdb_FromBytes w0 of Inl err \<Rightarrow> Some (External err) | Inr _ \<Rightarrow> None)"
    and "local_events s' =
           (if external_corrupt w0 then [EvStat, EvOpen, EvFromBytes] else [EvStat, EvFromBytes])"
    and "\<forall>i < length ((w0, ip0) # cs).
           \<not> remote_succeeds (fst (((w0, ip0) # cs) ! i)) (snd (((w0, ip0) # cs) ! i)) \<longrightarrow>
           rs ! i = Lookup_with (dbReader s') (dbInitErr s') (snd (((w0, ip0) # cs) ! i))"
proof -
  let ?s1 = "snd (Lookup w0 s0 ip0)"
  obtain rs1 where ls: "Lookups cs ?s1 = (rs1, s')" and rs: "rs = fst (Lookup w0 s0 ip0) # rs1"
    using assms(5) by (auto split: prod.splits)
  note first = first_Lookup[OF assms(1,2,3,4)]
  from Lookups_done[OF first(1) ls]
  have later: "dbReader s' = dbReader ?s1" "dbInitErr s' = dbInitErr ?s1"
    "local_events s' = local_events ?s1"
    "\<forall>i < length cs. \<not> remote_succeeds (fst (cs ! i)) (snd (cs ! i)) \<longrightarrow>
           rs1 ! i = Lookup_with (dbReader ?s1) (dbInitErr ?s1) (snd (cs ! i))"
    by simp_all
  from later(1) first(2)
  show "dbReader s' = (case mmdb_FromBytes w0 of Inl _ \<Rightarrow> None | Inr rd \<Rightarrow> Some rd)"
    by simp
  from later(2) first(3)
  show "dbInitErr s' =
           (case mmdb_FromBytes w0 of Inl err \<Rightarrow> Some (External err) | Inr _ \<Rightarrow> None)"
    by simp
  from later(3) first(4)
  show "local_events s' =
           (if external_corrupt w0 then [EvStat, EvOpen, EvFromBytes] else [EvStat, EvFromBytes])"
    by simp
  show "\<forall>i < length ((w0, ip0) # cs).
           \<not> remote_succeeds (fst (((w0, ip0) # cs) ! i)) (snd (((w0, ip0) # cs) ! i)) \<longrightarrow>
           rs ! i = Lookup_with (dbReader s') (dbInitErr s') (snd (((w0, ip0) # cs) ! i))"
  proof (intro allI impI)
    fix i assume i: "i < length ((w0, ip0) # cs)"
      and f: "\<not> remote_succeeds (fst (((w0, ip0) # cs) ! i)) (snd (((w0, ip0) # cs) ! i))"
    show "rs ! i = Lookup_with (dbReader s') (dbInitErr s') (snd (((w0, ip0) # cs) ! i))"
    proof (cases i)
      case 0
      with first(5) rs later(1,2) show ?thesis by simp
    next
      case (Suc j)
      with i f later(4) rs later(1,2) show ?thesis by simp
    qed
  qed
qed

lemma Lookup_db_error: "Lookup_db db ip = Inl e \<Longrightarrow> e = IPNotFound \<or> (\<exists>m. e = External m)"
  by (auto simp: Lookup_db_def Lookup_record_def split: sum.splits if_splits)

lemma Lookup_with_error:
  assumes "state_inv s" and "dbOnce s" and "Lookup_with (dbReader s) (dbInitErr s) ip = Inl e"
  shows "e = IPNotFound \<or> (\<exists>m. e = External m)"
proof (cases "dbInitErr s")
  case None
  with assms(1,2) obtain db where "dbReader s = Some db"
    by (auto simp: state_inv_def)
  with None assms(3) show ?thesis
    by (simp add: Lookup_with_def Lookup_db_error)
next
  case (Some e')
  with assms(1) obtain m where "e' = External m"
    by (auto simp: state_inv_def split: error.splits)
  with Some assms(3) show ?thesis by (auto simp: Lookup_with_def)
qed

lemma getDB_dbOnce: "dbOnce (snd (getDB w s))"
  by (simp add: getDB_def)

lemma Lookup_local_error:
  assumes "state_inv s" and "fst (Lookup_local w s ip) = Inl e"
  shows "e = IPNotFound \<or> (\<exists>m. e = External m)"
proof -
  let ?s2 = "snd (getDB w s)"
  have "fst (Lookup_local w s ip) = Lookup_with (dbReader ?s2) (dbInitErr ?s2) ip"
    using getDB_fst_snd[of w s] by (simp add: fst_Lookup_local_with)
  with assms(2) have "Lookup_with (dbReader ?s2) (dbInitErr ?s2) ip = Inl e" by simp
  with state_inv_getDB[OF assms(1)] getDB_dbOnce show ?thesis
    by (rule Lookup_with_error)
qed

text \<open>
  The errors \<open>Lookup\<close> can return are "IP not found" and those of the library: the
  errors of the remote tier stay inside, and the nil reader is never dereferenced.
\<close>

lemma Lookup_error:
  assumes "s = snd (Lookups pre init_state)" and "fst (Lookup w s ip) = Inl e"
  shows "e = IPNotFound \<or> (\<exists>m. e = External m)"
proof (cases "remote_succeeds w ip")
  case True
  then have "\<exists>c. fst (lookupFromIPInfo w s ip) = Inr c"
    using fst_remote[of w s ip init_state]
    by (auto simp: remote_succeeds_def split: sum.splits)
  with True assms(2) show ?thesis by (auto simp: Lookup_remote_succeeds)
next
  case False
  have "state_inv (snd (lookupFromIPInfo w s ip))"
    using state_inv_run[OF assms(1)] by (rule state_inv_remote)
  moreover from False assms(2)
  have "fst (Lookup_local w (snd (lookupFromIPInfo w s ip)) ip) = Inl e"
    by (simp add: Lookup_remote_fails)
  ultimately show ?thesis by (rule Lookup_local_error)
qed

subsection \<open>The sample data\<close>

lemma ToLower_AU: "ToLower ''AU'' = ''au''"
  by code_simp


lemma ToLower_US: "ToLower ''US'' = ''us''"
  by code_simp

lemma TrimSpace_US: "TrimSpace [CHR ''U'', CHR ''S'', CHR 0x0A] = ''US''"
  by code_simp

lemma offline_remote_fails: "\<not> remote_succeeds w_offline ip"
  by (cases ip)
     (simp_all add: remote_succeeds_def lookupFromIPInfo_def fetchIPInfoCountry_def
        w_offline_def Let_def)

lemma offline_getDB: "fst (getDB w_offline init_state) = (Some rd_embedded, None)"
  by (simp add: getDB_def initDB_def initDB_embedded_def w_offline_def init_state_def log_def)


lemma broken_remote_fails: "\<not> remote_succeeds w_broken ip"
  by (cases ip)
     (simp_all add: remote_succeeds_def lookupFromIPInfo_def fetchIPInfoCountry_def
        w_broken_def w_offline_def Let_def)

lemma corrupt_remote_fails: "\<not> remote_succeeds w_corrupt ip"
  by (cases ip)
     (simp_all add: remote_succeeds_def lookupFromIPInfo_def fetchIPInfoCountry_def
        w_corrupt_def w_offline_def Let_def)

lemma online_remote:
  "lookupFromIPInfo w_online s ip_a =
     (Inr ''us'', log (EvHttpGet ''https://ipinfo.io/1.1.1.1/country'') s)"
  by (simp add: lookupFromIPInfo_def fetchIPInfoCountry_def country_url_def w_online_def
      w_offline_def ip_a_def Let_def TrimSpace_US ToLower_US)

lemma s_answered_eq:
  "s_answered = log (EvHttpGet ''https://ipinfo.io/1.1.1.1/country'') init_state"
  by (simp add: s_answered_def Lookup_def online_remote)

section \<open>The properties\<close>

subsection \<open>Priority of the record's fields\<close>



subsection \<open>The remote result wins\<close>

text \<open>
  C2. When the remote lookup returns a non-empty code and no error, \<open>Lookup\<close> returns
  that code and the state the remote lookup left: the package variables are as they were
  before the call, whatever they were, and the log has gained no event of the file
  system or of the database library.
\<close>

theorem remote_result_wins:
  assumes "lookupFromIPInfo w s ip = (Inr code, s1)" and "code \<noteq> []"
  shows "Lookup w s ip = (Inr code, s1)
     \<and> dbOnce s1 = dbOnce s \<and> dbReader s1 = dbReader s \<and> dbInitErr s1 = dbInitErr s
     \<and> local_events s1 = local_events s"
proof -
  have "s1 = snd (lookupFromIPInfo w s ip)" using assms(1) by simp
  then have "dbOnce s1 = dbOnce s \<and> dbReader s1 = dbReader s \<and> dbInitErr s1 = dbInitErr s
     \<and> local_events s1 = local_events s"
    by (simp add: remote_fields)
  moreover have "Lookup w s ip = (Inr code, s1)"
    using assms by (simp add: Lookup_def)
  ultimately show ?thesis by simp
qed

theorem remote_result_wins_witness:
  "lookupFromIPInfo w_online (snd (Lookup w_broken init_state ip_a)) ip_a =
      (Inr ''us'', log (EvHttpGet ''https://ipinfo.io/1.1.1.1/country'') (snd (Lookup w_broken init_state ip_a)))
   \<and> ''us'' \<noteq> []
   \<and> dbInitErr (snd (Lookup w_broken init_state ip_a)) = Some (External ''invalid database'')
   \<and> fst (Lookup w_online (snd (Lookup w_broken init_state ip_a)) ip_a) = Inr ''us''"
proof -
  let ?s = "snd (Lookup w_broken init_state ip_a)"
  have h1: "lookupFromIPInfo w_online ?s ip_a =
      (Inr ''us'', log (EvHttpGet ''https://ipinfo.io/1.1.1.1/country'') ?s)"
    by (rule online_remote)
  have h2: "''us'' \<noteq> []" by simp
  have h3: "dbInitErr ?s = Some (External ''invalid database'')"
    by (simp add: Lookup_def lookupFromIPInfo_def fetchIPInfoCountry_def Lookup_local_def
        getDB_def initDB_def initDB_embedded_def w_broken_def w_offline_def init_state_def
        log_def ip_a_def Let_def)
  from remote_result_wins [OF h1 h2] have "fst (Lookup w_online ?s ip_a) = Inr ''us''"
    by simp
  with h1 h2 h3 show ?thesis by simp
qed

subsection \<open>Success of the remote lookup\<close>



subsection \<open>An address the database does not hold\<close>

text \<open>
  C3, as the code has it. When the remote tier does not succeed and the active database
  has no record for the address, the library returns nil and leaves the record as it
  was, so \<open>Lookup\<close> runs the priority chain on the empty record and fails with
  "IP not found": the error of an address whose record has no usable field.
\<close>

theorem absent_address_IPNotFound:
  assumes "\<not> remote_succeeds w ip"
    and "fst (getDB w s) = (Some db, None)"
    and "Reader_Lookup db ip = Inr None"
  shows "fst (Lookup w s ip) = Inl IPNotFound
     \<and> fst (Lookup w s ip) = Lookup_record zero_IPInfo"
proof -
  let ?s1 = "snd (lookupFromIPInfo w s ip)"
  from assms(2) have "fst (getDB w ?s1) = (Some db, None)"
    by (simp add: getDB_fst_remote)
  then have "fst (Lookup_local w ?s1 ip) = Lookup_db db ip"
    by (simp add: fst_Lookup_local)
  with assms(1,3) show ?thesis
    by (simp add: Lookup_remote_fails Lookup_db_def Lookup_record_zero)
qed

theorem absent_address_IPNotFound_witness:
  "\<not> remote_succeeds w_offline ip_c
   \<and> fst (getDB w_offline init_state) = (Some rd_embedded, None)
   \<and> Reader_Lookup rd_embedded ip_c = Inr None
   \<and> fst (Lookup w_offline init_state ip_c) = Inl IPNotFound"
proof -
  have h1: "\<not> remote_succeeds w_offline ip_c" by (rule offline_remote_fails)
  have h3: "Reader_Lookup rd_embedded ip_c = Inr None"
    by (simp add: rd_embedded_def ip_a_def ip_b_def ip_c_def)
  from absent_address_IPNotFound [OF h1 offline_getDB h3] h1 h3 offline_getDB
  show ?thesis by simp
qed

text \<open>
  C3, as stated, fails: \<open>ip_c\<close> is absent from the database and \<open>ip_b\<close> has a record
  without any field, and both get the same error.
\<close>

theorem absent_address_counterexample:
  "Reader_Lookup rd_embedded ip_c = Inr None
   \<and> Reader_Lookup rd_embedded ip_b = Inr (Some zero_IPInfo)
   \<and> fst (Lookup w_offline init_state ip_c) = Inl IPNotFound
   \<and> fst (Lookup w_offline init_state ip_b) = Inl IPNotFound"
  by (simp add: Lookup_remote_fails offline_remote_fails fst_Lookup_local getDB_fst_remote
      offline_getDB Lookup_db_def rd_embedded_def ip_a_def ip_b_def ip_c_def Lookup_record_zero)

subsection \<open>Shape of a successful result\<close>




subsection \<open>A failed initialisation is kept\<close>

text \<open>
  C6. Take a state reached by any calls from the initial state, in which \<open>initDB\<close> has not run, and a call whose remote
  tier does not succeed, in a world where the external database cannot be used and the
  embedded one does not parse, with error \<open>msg\<close>. After that call and any further
  calls, in any worlds, \<open>dbInitErr\<close> holds \<open>msg\<close>; every call of the run whose remote
  tier did not succeed returned that error; and the log holds, besides HTTP requests,
  the events of one run of \<open>initDB\<close> and nothing else: one \<open>os.Stat\<close>, at most one
  \<open>Open\<close>, one \<open>FromBytes\<close>.
\<close>

theorem init_error_recorded_once:
  assumes "s0 = snd (Lookups pre init_state)" and "\<not> dbOnce s0"
    and "\<not> remote_succeeds w0 ip0"
    and "external_absent w0 \<or> external_corrupt w0 \<or> external_is_dir w0"
    and "mmdb_FromBytes w0 = Inl msg"
    and "Lookups ((w0, ip0) # cs) s0 = (rs, s')"
  shows "dbInitErr s' = Some (External msg)
     \<and> local_events s' =
          (if external_corrupt w0 then [EvStat, EvOpen, EvFromBytes] else [EvStat, EvFromBytes])
     \<and> (\<forall>i < length ((w0, ip0) # cs).
           \<not> remote_succeeds (fst (((w0, ip0) # cs) ! i)) (snd (((w0, ip0) # cs) ! i)) \<longrightarrow>
           rs ! i = Inl (External msg))"
proof -
  have inv: "state_inv s0" using assms(1) by (rule state_inv_run)
  note run = Lookups_first[OF inv assms(2,3,4,6)]
  from run(2) assms(5) have err: "dbInitErr s' = Some (External msg)" by simp
  with run(4) have "\<forall>i < length ((w0, ip0) # cs).
           \<not> remote_succeeds (fst (((w0, ip0) # cs) ! i)) (snd (((w0, ip0) # cs) ! i)) \<longrightarrow>
           rs ! i = Inl (External msg)"
    by (simp add: Lookup_with_def)
  with err run(3) show ?thesis by simp
qed

theorem init_error_recorded_once_witness:
  "s_answered = snd (Lookups [(w_online, ip_a)] init_state)
   \<and> \<not> dbOnce s_answered
   \<and> \<not> remote_succeeds w_broken ip_a
   \<and> external_absent w_broken
   \<and> mmdb_FromBytes w_broken = Inl ''invalid database''
   \<and> dbInitErr (snd (Lookups [(w_broken, ip_a), (w_offline, ip_a)] s_answered)) =
        Some (External ''invalid database'')
   \<and> local_events (snd (Lookups [(w_broken, ip_a), (w_offline, ip_a)] s_answered)) =
        [EvStat, EvFromBytes]
   \<and> fst (Lookups [(w_broken, ip_a), (w_offline, ip_a)] s_answered) ! 0 =
        Inl (External ''invalid database'')
   \<and> fst (Lookups [(w_broken, ip_a), (w_offline, ip_a)] s_answered) ! 1 =
        Inl (External ''invalid database'')"
proof -
  let ?run = "Lookups [(w_broken, ip_a), (w_offline, ip_a)] s_answered"
  have h1: "s_answered = snd (Lookups [(w_online, ip_a)] init_state)"
    by (rule s_answered_def)
  have h2: "\<not> dbOnce s_answered"
    by (simp add: s_answered_eq log_fields init_state_def)
  have h3: "\<not> remote_succeeds w_broken ip_a" by (rule broken_remote_fails)
  have abs: "external_absent w_broken"
    by (simp add: external_absent_def w_broken_def w_offline_def)
  then have h4: "external_absent w_broken \<or> external_corrupt w_broken \<or> external_is_dir w_broken"
    by simp
  have nc: "\<not> external_corrupt w_broken"
    by (simp add: external_corrupt_def w_broken_def w_offline_def)
  have h5: "mmdb_FromBytes w_broken = Inl ''invalid database''"
    by (simp add: w_broken_def w_offline_def)
  have h6: "?run = (fst ?run, snd ?run)" by simp
  note inst = init_error_recorded_once [OF h1 h2 h3 h4 h5 h6]
  from inst have all: "\<forall>i < length [(w_broken, ip_a), (w_offline, ip_a)].
       \<not> remote_succeeds (fst ([(w_broken, ip_a), (w_offline, ip_a)] ! i))
            (snd ([(w_broken, ip_a), (w_offline, ip_a)] ! i)) \<longrightarrow>
       fst ?run ! i = Inl (External ''invalid database'')"
    by blast
  from all[rule_format, of 0] h3 have r0: "fst ?run ! 0 = Inl (External ''invalid database'')"
    by simp
  from all[rule_format, of 1] offline_remote_fails[of ip_a]
  have r1: "fst ?run ! 1 = Inl (External ''invalid database'')"
    by simp
  from inst nc have "dbInitErr (snd ?run) = Some (External ''invalid database'')"
    and "local_events (snd ?run) = [EvStat, EvFromBytes]"
    by simp_all
  with h1 h2 h3 abs h5 r0 r1 show ?thesis by blast
qed

subsection \<open>Falling back to the embedded database\<close>

text \<open>
  C7. Take a state reached by any calls from the initial state, in which \<open>initDB\<close> has not run, and a call whose remote
  tier does not succeed, in a world where the external file is absent, or is a regular
  file that does not open as a database, and where the embedded database parses to
  \<open>emb\<close>. After that call and any further calls, \<open>dbReader\<close> is \<open>emb\<close> and there is
  no error, and every call of the run whose remote tier did not succeed returned what
  the lookup in \<open>emb\<close> gives.
\<close>

theorem fallback_to_embedded:
  assumes "s0 = snd (Lookups pre init_state)" and "\<not> dbOnce s0"
    and "\<not> remote_succeeds w0 ip0"
    and "external_absent w0 \<or> external_corrupt w0"
    and "mmdb_FromBytes w0 = Inr emb"
    and "Lookups ((w0, ip0) # cs) s0 = (rs, s')"
  shows "dbReader s' = Some emb \<and> dbInitErr s' = None
     \<and> local_events s' =
          (if external_corrupt w0 then [EvStat, EvOpen, EvFromBytes] else [EvStat, EvFromBytes])
     \<and> (\<forall>i < length ((w0, ip0) # cs).
           \<not> remote_succeeds (fst (((w0, ip0) # cs) ! i)) (snd (((w0, ip0) # cs) ! i)) \<longrightarrow>
           rs ! i = Lookup_db emb (snd (((w0, ip0) # cs) ! i)))"
proof -
  have inv: "state_inv s0" using assms(1) by (rule state_inv_run)
  from assms(4) have fb: "external_absent w0 \<or> external_corrupt w0 \<or> external_is_dir w0"
    by blast
  note run = Lookups_first[OF inv assms(2,3) fb assms(6)]
  from run(1,2) assms(5) have db: "dbReader s' = Some emb" "dbInitErr s' = None" by simp_all
  with run(4) have "\<forall>i < length ((w0, ip0) # cs).
           \<not> remote_succeeds (fst (((w0, ip0) # cs) ! i)) (snd (((w0, ip0) # cs) ! i)) \<longrightarrow>
           rs ! i = Lookup_db emb (snd (((w0, ip0) # cs) ! i))"
    by (simp add: Lookup_with_def)
  with db run(3) show ?thesis by simp
qed

theorem fallback_to_embedded_witness:
  "init_state = snd (Lookups [] init_state) \<and> \<not> dbOnce init_state
   \<and> \<not> remote_succeeds w_corrupt ip_a
   \<and> external_corrupt w_corrupt
   \<and> mmdb_FromBytes w_corrupt = Inr rd_embedded
   \<and> dbReader (snd (Lookups [(w_corrupt, ip_a)] init_state)) = Some rd_embedded
   \<and> local_events (snd (Lookups [(w_corrupt, ip_a)] init_state)) = [EvStat, EvOpen, EvFromBytes]
   \<and> fst (Lookups [(w_corrupt, ip_a)] init_state) ! 0 = Inr ''au''"
proof -
  let ?run = "Lookups [(w_corrupt, ip_a)] init_state"
  have h1: "init_state = snd (Lookups [] init_state)" by simp
  have h2: "\<not> dbOnce init_state" by (simp add: init_state_def)
  have h3: "\<not> remote_succeeds w_corrupt ip_a" by (rule corrupt_remote_fails)
  have co: "external_corrupt w_corrupt"
    by (simp add: external_corrupt_def w_corrupt_def w_offline_def)
  then have h4: "external_absent w_corrupt \<or> external_corrupt w_corrupt" by simp
  have h5: "mmdb_FromBytes w_corrupt = Inr rd_embedded"
    by (simp add: w_corrupt_def w_offline_def)
  have h6: "?run = (fst ?run, snd ?run)" by simp
  have au: "Lookup_db rd_embedded ip_a = Inr ''au''"
    by (simp add: Lookup_db_def Lookup_record_def rd_embedded_def ip_a_def rec_AU_def ToLower_AU)
  note inst = fallback_to_embedded [OF h1 h2 h3 h4 h5 h6]
  from inst have all: "\<forall>i < length [(w_corrupt, ip_a)].
       \<not> remote_succeeds (fst ([(w_corrupt, ip_a)] ! i)) (snd ([(w_corrupt, ip_a)] ! i)) \<longrightarrow>
       fst ?run ! i = Lookup_db rd_embedded (snd ([(w_corrupt, ip_a)] ! i))"
    by blast
  from all[rule_format, of 0] h3 au have r0: "fst ?run ! 0 = Inr ''au''"
    by simp
  from inst co h1 h2 h3 h5 r0 show ?thesis by simp
qed

subsection \<open>The nil address\<close>

text \<open>
  C8. For the nil address \<open>lookupFromIPInfo\<close> returns the error "nil ip" and leaves the
  state, hence the log, as it was: no request is made. \<open>Lookup\<close> then does what its
  local tier does and, in a state reached by any calls from the initial state, never
  returns the error "nil ip".
\<close>

theorem nil_ip_falls_through:
  assumes "s = snd (Lookups pre init_state)"
  shows "lookupFromIPInfo w s None = (Inl NilIP, s)
     \<and> Lookup w s None = Lookup_local w s None
     \<and> fst (Lookup w s None) \<noteq> Inl NilIP"
proof -
  have r: "lookupFromIPInfo w s None = (Inl NilIP, s)"
    by (simp add: lookupFromIPInfo_def)
  then have l: "Lookup w s None = Lookup_local w s None"
    by (simp add: Lookup_def)
  have "fst (Lookup_local w s None) \<noteq> Inl NilIP"
    using Lookup_local_error[OF state_inv_run[OF assms], of w None NilIP] by auto
  with r l show ?thesis by simp
qed

theorem nil_ip_falls_through_witness:
  "init_state = snd (Lookups [] init_state)
   \<and> lookupFromIPInfo w_online init_state None = (Inl NilIP, init_state)
   \<and> fst (Lookup w_online init_state None) = Inl (External ''IP passed to Lookup cannot be nil'')"
proof -
  have h: "init_state = snd (Lookups [] init_state)" by simp
  have "fst (Lookup_local w_online init_state None) =
      Inl (External ''IP passed to Lookup cannot be nil'')"
    by (simp add: Lookup_local_def Lookup_with_def getDB_def initDB_def initDB_embedded_def
        Lookup_db_def w_online_def w_offline_def init_state_def log_def rd_embedded_def)
  with nil_ip_falls_through [OF h, of w_online] h show ?thesis by simp
qed

subsection \<open>A directory at the external path\<close>

text \<open>
  C10. When the external path is a directory, \<open>initDB\<close> does exactly what it does when
  \<open>os.Stat\<close> fails: after the \<open>os.Stat\<close> it goes on to the embedded database, and
  the only events it adds to the log are \<open>os.Stat\<close> and \<open>FromBytes\<close>, no \<open>Open\<close>.
\<close>

theorem directory_as_absent:
  assumes "external_is_dir w"
  shows "initDB w s = initDB (w\<lparr>os_Stat := Inl e\<rparr>) s
     \<and> initDB w s = initDB_embedded w (log EvStat s)
     \<and> trace (initDB w s) = trace s @ [EvStat, EvFromBytes]"
  using assms
  by (auto simp: external_is_dir_def initDB_def initDB_embedded_def Let_def log_def
        split: sum.splits)

theorem directory_as_absent_witness:
  "external_is_dir w_dir
   \<and> initDB w_dir init_state = initDB w_offline init_state
   \<and> trace (initDB w_dir init_state) = [EvStat, EvFromBytes]
   \<and> dbReader (initDB w_dir init_state) = Some rd_embedded"
proof -
  have h: "external_is_dir w_dir"
    by (simp add: external_is_dir_def w_dir_def w_offline_def)
  have same: "w_dir\<lparr>os_Stat := Inl ''no such file or directory''\<rparr> =
      w_offline\<lparr>mmdb_Open := Inl ''is a directory''\<rparr>"
    by (simp add: w_dir_def w_offline_def)
  have unopened: "initDB (w_offline\<lparr>mmdb_Open := Inl ''is a directory''\<rparr>) init_state =
      initDB w_offline init_state"
    by (simp add: initDB_def initDB_embedded_def w_offline_def Let_def)
  have emb: "dbReader (initDB w_offline init_state) = Some rd_embedded"
    by (simp add: initDB_def initDB_embedded_def w_offline_def Let_def log_def)
  have tr: "trace init_state = []" by (simp add: init_state_def)
  note inst = directory_as_absent [OF h, of init_state "''no such file or directory''"]
  from inst have "initDB w_dir init_state =
      initDB (w_dir\<lparr>os_Stat := Inl ''no such file or directory''\<rparr>) init_state"
    by (rule conjunct1)
  with same unopened have eq: "initDB w_dir init_state = initDB w_offline init_state"
    by simp
  from inst have "trace (initDB w_dir init_state) = trace init_state @ [EvStat, EvFromBytes]"
    by blast
  with tr have "trace (initDB w_dir init_state) = [EvStat, EvFromBytes]"
    by simp
  with eq h emb show ?thesis by simp
qed

end
